theory Spec2Isabelle
  imports Complex_Main "HOL-Library.AList" "HOL-Library.Multiset"
begin

section \<open>Numbers\<close>

text \<open>
  The components compute with JavaScript numbers. Record fields that come from the
  store are finite: a quantity is an integer column and is modelled as \<open>int\<close>; prices,
  totals and dividend amounts are decimal columns and are modelled as exact rationals
  (rounding of binary floating point is not modelled). Timestamps are the
  milliseconds that \<^verbatim>\<open>new Date(s).getTime()\<close> yields, an \<open>int\<close>.

  A JavaScript division never raises: dividing by zero gives \<^verbatim>\<open>NaN\<close> or an
  infinity. Results of divisions are therefore values of \<open>jsnum\<close>. The sign of a
  zero is not tracked: every zero is taken as \<^verbatim>\<open>+0\<close>.
\<close>

datatype jsnum = Fin rat | PInf | NInf | NaN


fun js_add :: "jsnum \<Rightarrow> jsnum \<Rightarrow> jsnum" where
  "js_add (Fin a) (Fin b) = Fin (a + b)"
| "js_add NaN y = NaN"
| "js_add x NaN = NaN"
| "js_add PInf NInf = NaN"
| "js_add NInf PInf = NaN"
| "js_add PInf y = PInf"
| "js_add NInf y = NInf"
| "js_add x PInf = PInf"
| "js_add x NInf = NInf"


fun js_mul :: "jsnum \<Rightarrow> jsnum \<Rightarrow> jsnum" where
  "js_mul (Fin a) (Fin b) = Fin (a * b)"
| "js_mul NaN y = NaN"
| "js_mul x NaN = NaN"
| "js_mul (Fin a) PInf = (if a = 0 then NaN else if 0 < a then PInf else NInf)"
| "js_mul (Fin a) NInf = (if a = 0 then NaN else if 0 < a then NInf else PInf)"
| "js_mul PInf (Fin b) = (if b = 0 then NaN else if 0 < b then PInf else NInf)"
| "js_mul NInf (Fin b) = (if b = 0 then NaN else if 0 < b then NInf else PInf)"
| "js_mul PInf PInf = PInf"
| "js_mul PInf NInf = NInf"
| "js_mul NInf PInf = NInf"
| "js_mul NInf NInf = PInf"

fun js_div :: "jsnum \<Rightarrow> jsnum \<Rightarrow> jsnum" where
  "js_div (Fin a) (Fin b) =
     (if b = 0 then (if a = 0 then NaN else if 0 < a then PInf else NInf)
      else Fin (a / b))"
| "js_div NaN y = NaN"
| "js_div x NaN = NaN"
| "js_div (Fin a) PInf = Fin 0"
| "js_div (Fin a) NInf = Fin 0"
| "js_div PInf (Fin b) = (if 0 \<le> b then PInf else NInf)"
| "js_div NInf (Fin b) = (if 0 \<le> b then NInf else PInf)"
| "js_div PInf y = NaN"
| "js_div NInf y = NaN"


text \<open>\<^verbatim>\<open>Math.ceil(ms / (1000 * 60 * 60 * 24))\<close> on a finite number of milliseconds.\<close>

definition ms_per_day :: int where
  "ms_per_day = 1000 * 60 * 60 * 24"

definition ceil_days :: "int \<Rightarrow> int" where
  "ceil_days ms = \<lceil>(of_int ms :: rat) / of_int ms_per_day\<rceil>"

section \<open>Records of the store\<close>

datatype transaction_type = Buy | Sell

record transaction =
  stock_code :: string
  transaction_type :: transaction_type
  quantity :: int
  price_per_share :: rat
  total_value :: rat
  transaction_date :: int

record dividend =
  div_stock_code :: string
  amount :: rat
  dividend_date :: int

text \<open>
  The row that \<^verbatim>\<open>TransactionForm\<close> inserts for a quantity and a price:
  \<^verbatim>\<open>total_value\<close> is their product.
\<close>

definition recorded :: "transaction_type \<Rightarrow> string \<Rightarrow> int \<Rightarrow> rat \<Rightarrow> int \<Rightarrow> transaction" where
  "recorded type code qty price date =
     \<lparr> stock_code = code, transaction_type = type, quantity = qty,
       price_per_share = price, total_value = of_int qty * price,
       transaction_date = date \<rparr>"

section \<open>HistoryList: closed positions by FIFO matching\<close>

text \<open>An entry of a queue in \<^verbatim>\<open>stockQueues\<close> (fields quantity, price, date, totalValue).\<close>

record lot =
  lot_quantity :: int
  lot_price :: rat
  lot_date :: int
  lot_totalValue :: rat

record ClosedPosition =
  cp_stock_code :: string
  buyDate :: int
  sellDate :: int
  cp_quantity :: int
  buyPrice :: rat
  sellPrice :: rat
  buyValue :: rat
  sellValue :: rat
  cp_dividends :: rat
  days :: int
  returnReais :: rat
  returnPercent :: jsnum
  monthlyReturn :: jsnum

text \<open>
  The dividends counted for one position: the filter and reduce of lines 87 to 93.
\<close>

definition positionDividends :: "dividend list \<Rightarrow> string \<Rightarrow> int \<Rightarrow> int \<Rightarrow> rat" where
  "positionDividends dividends stock bDate sDate =
     foldl (\<lambda>sum d. sum + amount d) 0
       (filter (\<lambda>d. div_stock_code d = stock \<and> bDate \<le> dividend_date d
                         \<and> dividend_date d \<le> sDate) dividends)"

text \<open>The closed position pushed by one iteration of the matching loop (lines 83 to 117).\<close>

definition match_position ::
  "dividend list \<Rightarrow> string \<Rightarrow> int \<Rightarrow> rat \<Rightarrow> int \<Rightarrow> lot \<Rightarrow> ClosedPosition" where
  "match_position dividends stock sDate sellPricePerShare matchedQuantity oldestBuy =
     (let bDate = lot_date oldestBuy;
          posDividends = positionDividends dividends stock bDate sDate;
          bValue = of_int matchedQuantity * lot_price oldestBuy;
          sValue = of_int matchedQuantity * sellPricePerShare;
          ds = ceil_days (sDate - bDate);
          retReais = (sValue + posDividends) - bValue;
          retPercent = js_mul (js_div (Fin retReais) (Fin bValue)) (Fin 100);
          months = (of_int ds :: rat) / 30;
          monthly = (if 0 < months then js_div retPercent (Fin months) else Fin 0)
      in \<lparr> cp_stock_code = stock, buyDate = bDate, sellDate = sDate,
           cp_quantity = matchedQuantity, buyPrice = lot_price oldestBuy,
           sellPrice = sellPricePerShare, buyValue = bValue, sellValue = sValue,
           cp_dividends = posDividends, days = ds, returnReais = retReais,
           returnPercent = retPercent, monthlyReturn = monthly \<rparr>)"

text \<open>
  The \<^verbatim>\<open>while (remainingSell > 0 && stockQueues[stock].length > 0)\<close> loop of a sell.
  It returns the queue and the list of closed positions as the loop leaves them.
\<close>

function sell_loop ::
  "dividend list \<Rightarrow> string \<Rightarrow> int \<Rightarrow> rat \<Rightarrow> int \<Rightarrow> lot list \<Rightarrow> ClosedPosition list
     \<Rightarrow> lot list \<times> ClosedPosition list" where
  "sell_loop dividends stock sDate sellPricePerShare remainingSell [] closedPositions =
     ([], closedPositions)"
| "sell_loop dividends stock sDate sellPricePerShare remainingSell (oldestBuy # rest) closedPositions =
     (if 0 < remainingSell then
        (let matchedQuantity = min remainingSell (lot_quantity oldestBuy);
             position = match_position dividends stock sDate sellPricePerShare
                          matchedQuantity oldestBuy;
             oldestBuy' = oldestBuy \<lparr> lot_quantity := lot_quantity oldestBuy - matchedQuantity \<rparr>;
             queue' = (if lot_quantity oldestBuy' = 0 then rest else oldestBuy' # rest)
         in sell_loop dividends stock sDate sellPricePerShare
              (remainingSell - matchedQuantity) queue' (closedPositions @ [position]))
      else (oldestBuy # rest, closedPositions))"
  by pat_completeness auto
termination
  by (relation "measure (\<lambda>(dividends, stock, sDate, sellPricePerShare, remainingSell, queue,
                            closedPositions).
          2 * length queue + (if 0 < remainingSell then 1 else 0))")
     (auto simp: min_def split: if_splits)

text \<open>
  The body of \<^verbatim>\<open>sortedTransactions.forEach\<close>: the state is the dictionary
  \<^verbatim>\<open>stockQueues\<close> and the array \<^verbatim>\<open>closedPositions\<close>.
\<close>

type_synonym history_state = "(string \<rightharpoonup> lot list) \<times> ClosedPosition list"

definition queue_of :: "(string \<rightharpoonup> lot list) \<Rightarrow> string \<Rightarrow> lot list" where
  "queue_of stockQueues stock = (case stockQueues stock of None \<Rightarrow> [] | Some q \<Rightarrow> q)"

definition process_transaction :: "dividend list \<Rightarrow> history_state \<Rightarrow> transaction \<Rightarrow> history_state" where
  "process_transaction dividends st t =
     (let stock = stock_code t;
          stockQueues = (case fst st stock of None \<Rightarrow> (fst st)(stock \<mapsto> []) | Some q \<Rightarrow> fst st);
          closedPositions = snd st
      in if transaction_type t = Buy then
           (stockQueues(stock \<mapsto> queue_of stockQueues stock @
              [\<lparr> lot_quantity = quantity t, lot_price = price_per_share t,
                 lot_date = transaction_date t, lot_totalValue = total_value t \<rparr>]),
            closedPositions)
         else
           (let r = sell_loop dividends stock (transaction_date t) (price_per_share t)
                      (quantity t) (queue_of stockQueues stock) closedPositions
            in (stockQueues(stock \<mapsto> fst r), snd r)))"

text \<open>
  \<^verbatim>\<open>[...transactions].sort(...)\<close> is a stable sort on the timestamp;
  \<open>sort_key\<close> is a stable insertion sort.
\<close>

definition sortedTransactions :: "transaction list \<Rightarrow> transaction list" where
  "sortedTransactions transactions = sort_key transaction_date transactions"

definition run_transactions :: "dividend list \<Rightarrow> transaction list \<Rightarrow> history_state" where
  "run_transactions dividends ts = foldl (process_transaction dividends) (Map.empty, []) ts"

definition calculateClosedPositions :: "transaction list \<Rightarrow> dividend list \<Rightarrow> ClosedPosition list" where
  "calculateClosedPositions transactions dividends =
     sort_key (\<lambda>c. - sellDate c)
       (snd (run_transactions dividends (sortedTransactions transactions)))"

text \<open>The queues as \<^verbatim>\<open>calculateClosedPositions\<close> leaves them when it returns.\<close>

definition final_queues :: "transaction list \<Rightarrow> dividend list \<Rightarrow> string \<Rightarrow> lot list" where
  "final_queues transactions dividends =
     queue_of (fst (run_transactions dividends (sortedTransactions transactions)))"

text \<open>
  The test of the filter of lines 88 to 92, on the fields of the closed position that
  the iteration pushes: same stock code, and a date from the buy date to the sell date,
  both included.
\<close>

definition in_window :: "ClosedPosition \<Rightarrow> dividend \<Rightarrow> bool" where
  "in_window c d \<longleftrightarrow>
     div_stock_code d = cp_stock_code c \<and> buyDate c \<le> dividend_date d
       \<and> dividend_date d \<le> sellDate c"

subsection \<open>Quantities per instrument\<close>

definition open_quantity :: "(string \<rightharpoonup> lot list) \<Rightarrow> string \<Rightarrow> int" where
  "open_quantity stockQueues s = sum_list (map lot_quantity (queue_of stockQueues s))"

definition closed_quantity :: "ClosedPosition list \<Rightarrow> string \<Rightarrow> int" where
  "closed_quantity closedPositions s =
     sum_list (map cp_quantity (filter (\<lambda>c. cp_stock_code c = s) closedPositions))"

definition acquired_quantity :: "transaction list \<Rightarrow> string \<Rightarrow> int" where
  "acquired_quantity ts s =
     sum_list (map quantity (filter (\<lambda>t. stock_code t = s \<and> transaction_type t = Buy) ts))"



section \<open>PortfolioSummary: holdings, returns and totals\<close>

text \<open>
  An entry of the dictionary \<^verbatim>\<open>portfolio\<close>. The dictionary is an association list
  in insertion order, the order in which \<^verbatim>\<open>Object.entries\<close> lists stock codes
  (codes that are not written as a number; the totals below are sums and do not depend
  on the order).
\<close>

record holding =
  h_quantity :: int
  avgPrice :: jsnum
  totalInvested :: rat
  firstPurchaseDate :: "int option"
  totalDividends :: rat

type_synonym portfolio = "(string \<times> holding) list"

definition new_holding :: holding where
  "new_holding = \<lparr> h_quantity = 0, avgPrice = Fin 0, totalInvested = 0,
                    firstPurchaseDate = None, totalDividends = 0 \<rparr>"

definition holding_of :: "portfolio \<Rightarrow> string \<Rightarrow> holding" where
  "holding_of pf code = (case map_of pf code of None \<Rightarrow> new_holding | Some h \<Rightarrow> h)"

text \<open>The body of \<^verbatim>\<open>transactions.forEach\<close> (lines 45 to 64).\<close>

definition portfolio_transaction :: "portfolio \<Rightarrow> transaction \<Rightarrow> portfolio" where
  "portfolio_transaction pf0 t =
     (let code = stock_code t;
          pf = (case map_of pf0 code of None \<Rightarrow> pf0 @ [(code, new_holding)] | Some h \<Rightarrow> pf0);
          h = holding_of pf code
      in if transaction_type t = Buy then
           (let currentTotal = js_mul (Fin (of_int (h_quantity h))) (avgPrice h);
                newTotal = js_add currentTotal (Fin (total_value t));
                quantity' = h_quantity h + quantity t;
                avgPrice' = js_div newTotal (Fin (of_int quantity'));
                totalInvested' = totalInvested h + total_value t;
                transactionDate = transaction_date t;
                firstPurchaseDate' =
                  (case firstPurchaseDate h of
                     None \<Rightarrow> Some transactionDate
                   | Some d \<Rightarrow> if transactionDate < d then Some transactionDate else Some d)
            in AList.update code
                 (h \<lparr> h_quantity := quantity', avgPrice := avgPrice',
                      totalInvested := totalInvested',
                      firstPurchaseDate := firstPurchaseDate' \<rparr>) pf)
         else AList.update code (h \<lparr> h_quantity := h_quantity h - quantity t \<rparr>) pf)"

text \<open>The body of \<^verbatim>\<open>dividends.forEach\<close> (lines 67 to 71).\<close>

definition portfolio_dividend :: "portfolio \<Rightarrow> dividend \<Rightarrow> portfolio" where
  "portfolio_dividend pf d =
     (case map_of pf (div_stock_code d) of
        None \<Rightarrow> pf
      | Some h \<Rightarrow>
          AList.update (div_stock_code d)
            (h \<lparr> totalDividends := totalDividends h + amount d \<rparr>) pf)"

definition portfolio_of :: "transaction list \<Rightarrow> dividend list \<Rightarrow> portfolio" where
  "portfolio_of transactions dividends =
     foldl portfolio_dividend (foldl portfolio_transaction [] transactions) dividends"

definition activeStocks :: "portfolio \<Rightarrow> portfolio" where
  "activeStocks pf = filter (\<lambda>(code, data). 0 < h_quantity data) pf"

text \<open>The state \<^verbatim>\<open>stockPrices\<close>, filled by the price fetch, is an input.\<close>

record StockData =
  currentPrice :: rat
  loading :: bool


definition calculateCurrentValue :: "int \<Rightarrow> rat \<Rightarrow> rat" where
  "calculateCurrentValue qty curPrice = of_int qty * curPrice"

text \<open>
  \<^verbatim>\<open>calculateMonthlyReturn\<close>; the clock \<^verbatim>\<open>new Date()\<close> is the parameter
  \<open>now\<close>.
\<close>

definition calculateMonthlyReturn :: "int \<Rightarrow> int option \<Rightarrow> jsnum \<Rightarrow> jsnum" where
  "calculateMonthlyReturn now firstPurchase currentReturn =
     (case firstPurchase of
        None \<Rightarrow> Fin 0
      | Some d \<Rightarrow>
          (let diffTime = \<bar>now - d\<bar>;
               diffDays = ceil_days diffTime;
               diffMonths = (of_int diffDays :: rat) / 30
           in if diffMonths = 0 then Fin 0 else js_div currentReturn (Fin diffMonths)))"

text \<open>
  The price shown for a stock code, \<^verbatim>\<open>stockPrice?.currentPrice || 0\<close> (line 261).
\<close>

definition currentPrice_of :: "(string \<rightharpoonup> StockData) \<Rightarrow> string \<Rightarrow> rat" where
  "currentPrice_of stockPrices code =
     (case stockPrices code of None \<Rightarrow> 0 | Some stockPrice \<Rightarrow> currentPrice stockPrice)"


text \<open>
  The monthly return of an open position in the words of the specification: the
  elapsed days are now minus the first acquisition (rounded up to days as the code
  rounds), the months are the days over 30, and the result is the return percent over
  the months when the months are positive, and 0 otherwise.
\<close>

definition spec_monthly_return :: "int \<Rightarrow> int \<Rightarrow> jsnum \<Rightarrow> jsnum" where
  "spec_monthly_return now first_acquisition_at return_percent =
     (let months = (of_int (ceil_days (now - first_acquisition_at)) :: rat) / 30
      in if 0 < months then js_div return_percent (Fin months) else Fin 0)"

text \<open>The two \<^verbatim>\<open>reduce\<close> calls of lines 154 to 162.\<close>

definition totalCurrentValue :: "(string \<rightharpoonup> StockData) \<Rightarrow> portfolio \<Rightarrow> rat" where
  "totalCurrentValue stockPrices pf =
     foldl (\<lambda>sum (code, data).
              (case stockPrices code of
                 None \<Rightarrow> sum
               | Some stockPrice \<Rightarrow>
                   if loading stockPrice then sum
                   else sum + calculateCurrentValue (h_quantity data) (currentPrice stockPrice)
                          + totalDividends data))
       0 (activeStocks pf)"

definition totalPortfolioInvested :: "portfolio \<Rightarrow> rat" where
  "totalPortfolioInvested pf =
     foldl (\<lambda>sum (code, data). sum + totalInvested data) 0 (activeStocks pf)"

definition portfolioReturn :: "(string \<rightharpoonup> StockData) \<Rightarrow> portfolio \<Rightarrow> rat" where
  "portfolioReturn stockPrices pf =
     (if 0 < totalPortfolioInvested pf
      then ((totalCurrentValue stockPrices pf - totalPortfolioInvested pf)
              / totalPortfolioInvested pf) * 100
      else 0)"

text \<open>
  \<^verbatim>\<open>isLoading\<close> (line 260), the test that the reduce of line 156 negates: the price
  of the stock code is absent or still loading. The specification calls such an
  instrument pending.
\<close>

definition isLoading :: "(string \<rightharpoonup> StockData) \<Rightarrow> string \<Rightarrow> bool" where
  "isLoading stockPrices code =
     (case stockPrices code of None \<Rightarrow> True | Some stockPrice \<Rightarrow> loading stockPrice)"

text \<open>
  \<^verbatim>\<open>allPricesLoaded\<close> (lines 169 to 172); the current value and the return of the
  portfolio are displayed only when it holds.
\<close>

definition allPricesLoaded :: "(string \<rightharpoonup> StockData) \<Rightarrow> portfolio \<Rightarrow> bool" where
  "allPricesLoaded stockPrices pf =
     list_all (\<lambda>(code, data).
                 (case stockPrices code of None \<Rightarrow> False
                  | Some price \<Rightarrow> \<not> loading price))
       (activeStocks pf)"

section \<open>Properties of the matching loop\<close>

text \<open>
  The equations of the loop are applied one iteration at a time.
\<close>

declare sell_loop.simps [simp del]

text \<open>The ceiling of the quotient, computed on integers.\<close>

lemma ceil_days_div: "ceil_days ms = - ((- ms) div ms_per_day)"
  unfolding ceil_days_def by (rule ceiling_divide_eq_div)

lemmas history_defs =
  calculateClosedPositions_def final_queues_def run_transactions_def sortedTransactions_def
  process_transaction_def queue_of_def match_position_def positionDividends_def
  ceil_days_div ms_per_day_def recorded_def Let_def sell_loop.simps

lemma sell_loop_stop:
  "\<not> 0 < rem \<Longrightarrow> sell_loop ds stock sd p rem q cl = (q, cl)"
  by (cases q) (simp_all add: sell_loop.simps)

lemma sell_loop_step:
  "0 < rem \<Longrightarrow>
   sell_loop ds stock sd p rem (b # rest) cl =
     sell_loop ds stock sd p (rem - min rem (lot_quantity b))
       (if lot_quantity b - min rem (lot_quantity b) = 0 then rest
        else b \<lparr> lot_quantity := lot_quantity b - min rem (lot_quantity b) \<rparr> # rest)
       (cl @ [match_position ds stock sd p (min rem (lot_quantity b)) b])"
  by (simp add: sell_loop.simps(2) [of ds stock sd p rem b rest cl] Let_def)

lemma cp_stock_code_match_position [simp]:
  "cp_stock_code (match_position ds stock sd p m l) = stock"
  by (simp add: match_position_def Let_def)

lemma cp_quantity_match_position [simp]:
  "cp_quantity (match_position ds stock sd p m l) = m"
  by (simp add: match_position_def Let_def)

lemma closed_quantity_append:
  "closed_quantity (xs @ ys) s = closed_quantity xs s + closed_quantity ys s"
  by (simp add: closed_quantity_def)

lemma queue_of_upd [simp]:
  "queue_of (m(k \<mapsto> q)) s = (if s = k then q else queue_of m s)"
  by (simp add: queue_of_def)

lemma queue_of_init [simp]:
  "queue_of (case m k of None \<Rightarrow> m(k \<mapsto> []) | Some q \<Rightarrow> m) s = queue_of m s"
  by (simp add: queue_of_def split: option.splits)

lemma process_transaction_Buy:
  "transaction_type t = Buy \<Longrightarrow>
   snd (process_transaction ds st t) = snd st"
  by (simp add: process_transaction_def Let_def)

lemma process_transaction_Sell:
  "transaction_type t = Sell \<Longrightarrow>
   snd (process_transaction ds st t) =
     snd (sell_loop ds (stock_code t) (transaction_date t) (price_per_share t) (quantity t)
            (queue_of (fst st) (stock_code t)) (snd st))"
  by (simp add: process_transaction_def Let_def)

subsection \<open>Conservation of quantity\<close>

text \<open>
  Every iteration of the loop moves the matched quantity from the head lot to a new
  closed position of the same instrument, so the loop keeps the sum of both.
\<close>

lemma sell_loop_conserves:
  "sum_list (map lot_quantity (fst (sell_loop ds stock sd p rem q cl)))
     + closed_quantity (snd (sell_loop ds stock sd p rem q cl)) stock
   = sum_list (map lot_quantity q) + closed_quantity cl stock"
proof (induction ds stock sd p rem q cl rule: sell_loop.induct)
  case (1 ds stock sd p rem cl)
  show ?case by (simp add: sell_loop.simps(1))
next
  case (2 ds stock sd p rem b rest cl)
  show ?case
  proof (cases "0 < rem")
    case False
    then show ?thesis by (simp add: sell_loop_stop)
  next
    case True
    show ?thesis
      using "2.IH" [OF True refl refl refl refl]
      by (simp add: sell_loop_step [OF True] closed_quantity_append closed_quantity_def
            split: if_splits)
  qed
qed

lemma sell_loop_other_stock:
  "s \<noteq> stock \<Longrightarrow>
   closed_quantity (snd (sell_loop ds stock sd p rem q cl)) s = closed_quantity cl s"
proof (induction ds stock sd p rem q cl rule: sell_loop.induct)
  case (1 ds stock sd p rem cl)
  show ?case by (simp add: sell_loop.simps(1))
next
  case (2 ds stock sd p rem b rest cl)
  show ?case
  proof (cases "0 < rem")
    case False
    then show ?thesis by (simp add: sell_loop_stop)
  next
    case True
    show ?thesis
      using "2.IH" [OF True refl refl refl refl "2.prems"] "2.prems"
      by (simp add: sell_loop_step [OF True] closed_quantity_append closed_quantity_def
            split: if_splits)
  qed
qed

lemma process_transaction_conserves:
  "open_quantity (fst (process_transaction ds st t)) s
     + closed_quantity (snd (process_transaction ds st t)) s
   = open_quantity (fst st) s + closed_quantity (snd st) s
     + (if stock_code t = s \<and> transaction_type t = Buy then quantity t else 0)"
proof (cases "transaction_type t")
  case Buy
  then show ?thesis
    by (simp add: process_transaction_def open_quantity_def Let_def)
next
  case Sell
  show ?thesis
  proof (cases "s = stock_code t")
    case True
    then show ?thesis
      using Sell sell_loop_conserves [of ds "stock_code t" "transaction_date t"
          "price_per_share t" "quantity t" "queue_of (fst st) (stock_code t)" "snd st"]
      by (simp add: process_transaction_def open_quantity_def Let_def)
  next
    case False
    then show ?thesis
      using Sell sell_loop_other_stock [of s "stock_code t" ds "transaction_date t"
          "price_per_share t" "quantity t" "queue_of (fst st) (stock_code t)" "snd st"]
      by (simp add: process_transaction_def open_quantity_def Let_def)
  qed
qed

lemma acquired_quantity_Cons:
  "acquired_quantity (t # ts) s =
     (if stock_code t = s \<and> transaction_type t = Buy then quantity t else 0)
       + acquired_quantity ts s"
  by (simp add: acquired_quantity_def)

lemma foldl_process_conserves:
  "open_quantity (fst (foldl (process_transaction ds) st ts)) s
     + closed_quantity (snd (foldl (process_transaction ds) st ts)) s
   = open_quantity (fst st) s + closed_quantity (snd st) s + acquired_quantity ts s"
proof (induction ts arbitrary: st)
  case Nil
  show ?case by (simp add: acquired_quantity_def)
next
  case (Cons t ts)
  show ?case
    using Cons.IH [of "process_transaction ds st t"] process_transaction_conserves [of ds st t s]
    by (simp add: acquired_quantity_Cons)
qed

lemma run_transactions_conserves:
  "open_quantity (fst (run_transactions ds ts)) s
     + closed_quantity (snd (run_transactions ds ts)) s = acquired_quantity ts s"
  using foldl_process_conserves [of ds "(Map.empty, [])" ts s]
  by (simp add: run_transactions_def open_quantity_def closed_quantity_def queue_of_def)

lemma sum_list_sort_key:
  fixes f :: "'a \<Rightarrow> 'b::comm_monoid_add" and k :: "'a \<Rightarrow> 'c::linorder"
  shows "sum_list (map f (filter P (sort_key k xs))) = sum_list (map f (filter P xs))"
proof -
  have "mset (map f (filter P (sort_key k xs))) = mset (map f (filter P xs))"
    by simp
  then show ?thesis
    by (metis sum_mset_sum_list)
qed

text \<open>
  C4. For every list of transactions, every instrument \<open>s\<close> and every number \<open>n\<close> of
  events processed so far (in the sorted order in which the engine processes them), the
  quantity remaining in the open lots of \<open>s\<close> plus the quantity of the closed positions
  emitted for \<open>s\<close> equals the quantity acquired for \<open>s\<close> by the events processed; the
  same holds of the queues and the list that \<^verbatim>\<open>calculateClosedPositions\<close> ends with.
\<close>

theorem quantity_conservation:
  "(\<forall>n. open_quantity (fst (run_transactions ds (take n (sortedTransactions ts)))) s
        + closed_quantity (snd (run_transactions ds (take n (sortedTransactions ts)))) s
      = acquired_quantity (take n (sortedTransactions ts)) s)
   \<and> sum_list (map lot_quantity (final_queues ts ds s))
        + closed_quantity (calculateClosedPositions ts ds) s
      = acquired_quantity ts s"
proof -
  have "acquired_quantity (sortedTransactions ts) s = acquired_quantity ts s"
    by (simp add: acquired_quantity_def sortedTransactions_def sum_list_sort_key)
  moreover have "closed_quantity (calculateClosedPositions ts ds) s
      = closed_quantity (snd (run_transactions ds (sortedTransactions ts))) s"
    by (simp add: closed_quantity_def calculateClosedPositions_def sum_list_sort_key)
  ultimately have final: "sum_list (map lot_quantity (final_queues ts ds s))
        + closed_quantity (calculateClosedPositions ts ds) s = acquired_quantity ts s"
    using run_transactions_conserves [of ds "sortedTransactions ts" s]
    by (simp add: final_queues_def open_quantity_def)
  show ?thesis
    using final by (simp add: run_transactions_conserves)
qed

subsection \<open>FIFO order\<close>

text \<open>
  A sell that covers a prefix of the queue closes the lots of the prefix in full, in
  queue order, and goes on with the rest of the queue; a sell that ends inside a lot
  closes the part it needs and leaves the lot where it is, at the head of the queue.
\<close>

lemma sell_loop_prefix:
  "(\<forall>l\<in>set pre. 0 < lot_quantity l) \<Longrightarrow> sum_list (map lot_quantity pre) \<le> rem \<Longrightarrow>
   sell_loop ds stock sd p rem (pre @ post) cl
     = sell_loop ds stock sd p (rem - sum_list (map lot_quantity pre)) post
         (cl @ map (\<lambda>l. match_position ds stock sd p (lot_quantity l) l) pre)"
proof (induction pre arbitrary: rem cl)
  case Nil
  show ?case by simp
next
  case (Cons b rest)
  have nn: "0 \<le> sum_list (map lot_quantity rest)"
    using Cons.prems(1) by (intro sum_list_nonneg) auto
  have b: "0 < lot_quantity b" using Cons.prems(1) by simp
  have le: "lot_quantity b \<le> rem" using Cons.prems(2) nn by simp
  have pos: "0 < rem" using b le by simp
  have m: "min rem (lot_quantity b) = lot_quantity b" using le by simp
  have "sell_loop ds stock sd p rem ((b # rest) @ post) cl
      = sell_loop ds stock sd p (rem - lot_quantity b) (rest @ post)
          (cl @ [match_position ds stock sd p (lot_quantity b) b])"
    by (simp add: sell_loop_step [OF pos] m)
  also have "\<dots> = sell_loop ds stock sd p
         (rem - lot_quantity b - sum_list (map lot_quantity rest)) post
         ((cl @ [match_position ds stock sd p (lot_quantity b) b])
            @ map (\<lambda>l. match_position ds stock sd p (lot_quantity l) l) rest)"
    using Cons.prems by (intro Cons.IH) auto
  finally show ?case by (simp add: algebra_simps)
qed

lemma sell_loop_partial:
  "0 < rem \<Longrightarrow> rem < lot_quantity b \<Longrightarrow>
   sell_loop ds stock sd p rem (b # post) cl
     = (b \<lparr> lot_quantity := lot_quantity b - rem \<rparr> # post,
        cl @ [match_position ds stock sd p rem b])"
  by (simp add: sell_loop_step sell_loop_stop)

text \<open>
  The loop removes lots from the head of the queue only and a buy is appended at the
  tail, so the queue of every instrument is in the order of the acquisition dates at
  every point: the head is the oldest open lot.
\<close>

lemma sell_loop_dates:
  "\<exists>k. map lot_date (fst (sell_loop ds stock sd p rem q cl)) = drop k (map lot_date q)"
proof (induction q arbitrary: rem cl)
  case Nil
  show ?case by (simp add: sell_loop.simps(1))
next
  case (Cons b rest)
  show ?case
  proof (cases "0 < rem")
    case False
    then have "map lot_date (fst (sell_loop ds stock sd p rem (b # rest) cl))
        = drop 0 (map lot_date (b # rest))"
      by (simp add: sell_loop_stop)
    then show ?thesis by blast
  next
    case True
    show ?thesis
    proof (cases "lot_quantity b \<le> rem")
      case whole: True
      then have m: "min rem (lot_quantity b) = lot_quantity b" by simp
      have step: "sell_loop ds stock sd p rem (b # rest) cl
          = sell_loop ds stock sd p (rem - lot_quantity b) rest
              (cl @ [match_position ds stock sd p (lot_quantity b) b])"
        by (simp add: sell_loop_step [OF True] m)
      obtain k where "map lot_date (fst (sell_loop ds stock sd p (rem - lot_quantity b) rest
              (cl @ [match_position ds stock sd p (lot_quantity b) b])))
          = drop k (map lot_date rest)"
        using Cons.IH by blast
      then have "map lot_date (fst (sell_loop ds stock sd p rem (b # rest) cl))
          = drop (Suc k) (map lot_date (b # rest))"
        by (simp add: step)
      then show ?thesis by blast
    next
      case part: False
      then have m: "min rem (lot_quantity b) = rem" by simp
      have nz: "lot_quantity b - rem \<noteq> 0" using part by simp
      have step: "sell_loop ds stock sd p rem (b # rest) cl
          = (b \<lparr> lot_quantity := lot_quantity b - rem \<rparr> # rest,
             cl @ [match_position ds stock sd p rem b])"
        using nz by (simp add: sell_loop_step [OF True] m sell_loop_stop)
      have "map lot_date (fst (sell_loop ds stock sd p rem (b # rest) cl))
          = drop 0 (map lot_date (b # rest))"
        by (simp add: step)
      then show ?thesis by blast
    qed
  qed
qed

lemma process_transaction_dates:
  assumes "\<forall>x\<in>set xs. transaction_date x \<le> transaction_date t"
    and "\<forall>s. sorted (map lot_date (queue_of (fst st) s))
            \<and> set (map lot_date (queue_of (fst st) s)) \<subseteq> transaction_date ` set xs"
  shows "sorted (map lot_date (queue_of (fst (process_transaction ds st t)) s))
       \<and> set (map lot_date (queue_of (fst (process_transaction ds st t)) s))
           \<subseteq> transaction_date ` set (xs @ [t])"
proof (cases "s = stock_code t")
  case False
  then have "queue_of (fst (process_transaction ds st t)) s = queue_of (fst st) s"
    by (simp add: process_transaction_def Let_def)
  then show ?thesis using assms(2) by auto
next
  case True
  have old: "sorted (map lot_date (queue_of (fst st) s))"
    "set (map lot_date (queue_of (fst st) s)) \<subseteq> transaction_date ` set xs"
    using assms(2) by blast+
  show ?thesis
  proof (cases "transaction_type t")
    case Buy
    have q: "map lot_date (queue_of (fst (process_transaction ds st t)) s)
        = map lot_date (queue_of (fst st) s) @ [transaction_date t]"
      using Buy True by (simp add: process_transaction_def Let_def)
    have "\<forall>d\<in>set (map lot_date (queue_of (fst st) s)). d \<le> transaction_date t"
      using old(2) assms(1) by auto
    then have "sorted (map lot_date (queue_of (fst st) s) @ [transaction_date t])"
      using old(1) by (simp add: sorted_append)
    moreover have "set (map lot_date (queue_of (fst st) s) @ [transaction_date t])
        \<subseteq> transaction_date ` set (xs @ [t])"
      using old(2) by auto
    ultimately show ?thesis by (simp only: q)
  next
    case Sell
    obtain k where k: "map lot_date (fst (sell_loop ds (stock_code t) (transaction_date t)
          (price_per_share t) (quantity t) (queue_of (fst st) (stock_code t)) (snd st)))
        = drop k (map lot_date (queue_of (fst st) (stock_code t)))"
      using sell_loop_dates by blast
    have q: "map lot_date (queue_of (fst (process_transaction ds st t)) s)
        = drop k (map lot_date (queue_of (fst st) s))"
      using Sell True k by (simp add: process_transaction_def Let_def)
    have "sorted (drop k (map lot_date (queue_of (fst st) s)))"
      using old(1) by (rule sorted_wrt_drop)
    moreover have "set (drop k (map lot_date (queue_of (fst st) s)))
        \<subseteq> set (map lot_date (queue_of (fst st) s))"
      by (rule set_drop_subset)
    then have "set (drop k (map lot_date (queue_of (fst st) s)))
        \<subseteq> transaction_date ` set (xs @ [t])"
      using old(2) by auto
    ultimately show ?thesis by (simp only: q)
  qed
qed

lemma run_transactions_dates:
  "sorted (map transaction_date xs) \<Longrightarrow>
   (\<forall>s. sorted (map lot_date (queue_of (fst (run_transactions ds xs)) s))
       \<and> set (map lot_date (queue_of (fst (run_transactions ds xs)) s))
           \<subseteq> transaction_date ` set xs)"
proof (induction xs rule: rev_induct)
  case Nil
  show ?case by (simp add: run_transactions_def queue_of_def)
next
  case (snoc t xs)
  have srt: "sorted (map transaction_date xs)"
    and le: "\<forall>x\<in>set xs. transaction_date x \<le> transaction_date t"
    using snoc.prems by (auto simp: sorted_append)
  have IH: "\<forall>s. sorted (map lot_date (queue_of (fst (run_transactions ds xs)) s))
       \<and> set (map lot_date (queue_of (fst (run_transactions ds xs)) s))
           \<subseteq> transaction_date ` set xs"
    using snoc.IH srt by blast
  have "\<And>s. sorted (map lot_date
            (queue_of (fst (process_transaction ds (run_transactions ds xs) t)) s))
       \<and> set (map lot_date (queue_of (fst (process_transaction ds (run_transactions ds xs) t)) s))
           \<subseteq> transaction_date ` set (xs @ [t])"
    using le IH by (rule process_transaction_dates)
  then show ?case
    by (simp add: run_transactions_def)
qed

lemma queues_in_date_order:
  "sorted (map lot_date
     (queue_of (fst (run_transactions ds (take n (sortedTransactions ts)))) s))"
proof -
  have "sorted (map transaction_date (sortedTransactions ts))"
    by (simp add: sortedTransactions_def)
  then have "sorted (take n (map transaction_date (sortedTransactions ts)))"
    by (rule sorted_wrt_take)
  then have "sorted (map transaction_date (take n (sortedTransactions ts)))"
    by (simp add: take_map)
  then show ?thesis
    using run_transactions_dates by blast
qed

text \<open>
  C3. Disposals consume the open lots strictly oldest first. At every point the queue
  of every instrument is in the order of the acquisition dates. With positive lots, a
  sell of exactly the quantity of a prefix of the queue closes each lot of the prefix in
  full, in queue order, and leaves the rest of the queue untouched; a sell that exceeds
  the prefix by less than the next lot closes the prefix in full and then the missing
  part of the next lot, which stays at the head of the queue, before the lots behind it,
  with the quantity reduced. Two buys of 10 at prices 1 and 2 (times 1 and 2) and a sell
  of 12 at price 5 (time 3) give exactly two closed positions, 10 bought at 1 from time 1
  and 2 bought at 2 from time 2, and leave one open lot of 8 at price 2; the result is
  the same when the three records arrive newest first.
\<close>

theorem fifo_order:
  "((\<forall>l\<in>set pre. 0 < lot_quantity l) \<longrightarrow>
      (rem = sum_list (map lot_quantity pre) \<longrightarrow>
         sell_loop ds stock sd p rem (pre @ post) cl
           = (post, cl @ map (\<lambda>l. match_position ds stock sd p (lot_quantity l) l) pre))
      \<and> (sum_list (map lot_quantity pre) < rem
           \<and> rem < sum_list (map lot_quantity pre) + lot_quantity b \<longrightarrow>
         sell_loop ds stock sd p rem (pre @ b # post) cl
           = (b \<lparr> lot_quantity := lot_quantity b - (rem - sum_list (map lot_quantity pre)) \<rparr>
                # post,
              cl @ map (\<lambda>l. match_position ds stock sd p (lot_quantity l) l) pre
                 @ [match_position ds stock sd p (rem - sum_list (map lot_quantity pre)) b])))
   \<and> (\<forall>n. sorted (map lot_date
          (queue_of (fst (run_transactions ds (take n (sortedTransactions ts)))) s)))
   \<and> calculateClosedPositions
       [recorded Buy ''A'' 10 1 1, recorded Buy ''A'' 10 2 2, recorded Sell ''A'' 12 5 3] []
     = [\<lparr> cp_stock_code = ''A'', buyDate = 1, sellDate = 3, cp_quantity = 10,
           buyPrice = 1, sellPrice = 5, buyValue = 10, sellValue = 50, cp_dividends = 0,
           days = 1, returnReais = 40, returnPercent = Fin 400, monthlyReturn = Fin 12000 \<rparr>,
        \<lparr> cp_stock_code = ''A'', buyDate = 2, sellDate = 3, cp_quantity = 2,
           buyPrice = 2, sellPrice = 5, buyValue = 4, sellValue = 10, cp_dividends = 0,
           days = 1, returnReais = 6, returnPercent = Fin 150, monthlyReturn = Fin 4500 \<rparr>]
   \<and> final_queues
       [recorded Buy ''A'' 10 1 1, recorded Buy ''A'' 10 2 2, recorded Sell ''A'' 12 5 3] []
       ''A''
     = [\<lparr> lot_quantity = 8, lot_price = 2, lot_date = 2, lot_totalValue = 20 \<rparr>]
   \<and> calculateClosedPositions
       [recorded Sell ''A'' 12 5 3, recorded Buy ''A'' 10 2 2, recorded Buy ''A'' 10 1 1] []
     = calculateClosedPositions
         [recorded Buy ''A'' 10 1 1, recorded Buy ''A'' 10 2 2, recorded Sell ''A'' 12 5 3] []
   \<and> final_queues
       [recorded Sell ''A'' 12 5 3, recorded Buy ''A'' 10 2 2, recorded Buy ''A'' 10 1 1] []
       ''A''
     = [\<lparr> lot_quantity = 8, lot_price = 2, lot_date = 2, lot_totalValue = 20 \<rparr>]"
proof -
  have exact: "(\<forall>l\<in>set pre. 0 < lot_quantity l) \<Longrightarrow> rem = sum_list (map lot_quantity pre) \<Longrightarrow>
         sell_loop ds stock sd p rem (pre @ post) cl
           = (post, cl @ map (\<lambda>l. match_position ds stock sd p (lot_quantity l) l) pre)"
    by (simp add: sell_loop_prefix sell_loop_stop)
  have partial: "(\<forall>l\<in>set pre. 0 < lot_quantity l) \<Longrightarrow>
         sum_list (map lot_quantity pre) < rem
           \<and> rem < sum_list (map lot_quantity pre) + lot_quantity b \<Longrightarrow>
         sell_loop ds stock sd p rem (pre @ b # post) cl
           = (b \<lparr> lot_quantity := lot_quantity b - (rem - sum_list (map lot_quantity pre)) \<rparr>
                # post,
              cl @ map (\<lambda>l. match_position ds stock sd p (lot_quantity l) l) pre
                 @ [match_position ds stock sd p (rem - sum_list (map lot_quantity pre)) b])"
    by (simp add: sell_loop_prefix sell_loop_partial)
  have ex1: "calculateClosedPositions
       [recorded Buy ''A'' 10 1 1, recorded Buy ''A'' 10 2 2, recorded Sell ''A'' 12 5 3] []
     = [\<lparr> cp_stock_code = ''A'', buyDate = 1, sellDate = 3, cp_quantity = 10,
           buyPrice = 1, sellPrice = 5, buyValue = 10, sellValue = 50, cp_dividends = 0,
           days = 1, returnReais = 40, returnPercent = Fin 400, monthlyReturn = Fin 12000 \<rparr>,
        \<lparr> cp_stock_code = ''A'', buyDate = 2, sellDate = 3, cp_quantity = 2,
           buyPrice = 2, sellPrice = 5, buyValue = 4, sellValue = 10, cp_dividends = 0,
           days = 1, returnReais = 6, returnPercent = Fin 150, monthlyReturn = Fin 4500 \<rparr>]"
    by (simp add: history_defs)
  have ex2: "final_queues
       [recorded Buy ''A'' 10 1 1, recorded Buy ''A'' 10 2 2, recorded Sell ''A'' 12 5 3] []
       ''A''
     = [\<lparr> lot_quantity = 8, lot_price = 2, lot_date = 2, lot_totalValue = 20 \<rparr>]"
    by (simp add: history_defs)
  have sorted: "sortedTransactions
       [recorded Sell ''A'' 12 5 3, recorded Buy ''A'' 10 2 2, recorded Buy ''A'' 10 1 1]
     = sortedTransactions
       [recorded Buy ''A'' 10 1 1, recorded Buy ''A'' 10 2 2, recorded Sell ''A'' 12 5 3]"
    by (simp add: sortedTransactions_def recorded_def)
  have ex3: "calculateClosedPositions
       [recorded Sell ''A'' 12 5 3, recorded Buy ''A'' 10 2 2, recorded Buy ''A'' 10 1 1] []
     = calculateClosedPositions
         [recorded Buy ''A'' 10 1 1, recorded Buy ''A'' 10 2 2, recorded Sell ''A'' 12 5 3] []"
    by (simp only: calculateClosedPositions_def sorted)
  have ex4: "final_queues
       [recorded Sell ''A'' 12 5 3, recorded Buy ''A'' 10 2 2, recorded Buy ''A'' 10 1 1] []
       ''A''
     = [\<lparr> lot_quantity = 8, lot_price = 2, lot_date = 2, lot_totalValue = 20 \<rparr>]"
    using ex2 by (simp only: final_queues_def sorted)
  have dates: "\<forall>n. sorted (map lot_date
          (queue_of (fst (run_transactions ds (take n (sortedTransactions ts)))) s))"
    by (simp add: queues_in_date_order)
  show ?thesis
    using exact partial dates ex1 ex2 ex3 ex4 by blast
qed

theorem fifo_order_witness:
  "sell_loop [] ''A'' 3 5 12
     [\<lparr> lot_quantity = 10, lot_price = 1, lot_date = 1, lot_totalValue = 10 \<rparr>,
      \<lparr> lot_quantity = 10, lot_price = 2, lot_date = 2, lot_totalValue = 20 \<rparr>,
      \<lparr> lot_quantity = 7, lot_price = 3, lot_date = 3, lot_totalValue = 21 \<rparr>] []
   = ([\<lparr> lot_quantity = 8, lot_price = 2, lot_date = 2, lot_totalValue = 20 \<rparr>,
       \<lparr> lot_quantity = 7, lot_price = 3, lot_date = 3, lot_totalValue = 21 \<rparr>],
      [match_position [] ''A'' 3 5 10
         \<lparr> lot_quantity = 10, lot_price = 1, lot_date = 1, lot_totalValue = 10 \<rparr>,
       match_position [] ''A'' 3 5 2
         \<lparr> lot_quantity = 10, lot_price = 2, lot_date = 2, lot_totalValue = 20 \<rparr>])
   \<and> sell_loop [] ''A'' 3 5 10
     [\<lparr> lot_quantity = 10, lot_price = 1, lot_date = 1, lot_totalValue = 10 \<rparr>,
      \<lparr> lot_quantity = 10, lot_price = 2, lot_date = 2, lot_totalValue = 20 \<rparr>] []
   = ([\<lparr> lot_quantity = 10, lot_price = 2, lot_date = 2, lot_totalValue = 20 \<rparr>],
      [match_position [] ''A'' 3 5 10
         \<lparr> lot_quantity = 10, lot_price = 1, lot_date = 1, lot_totalValue = 10 \<rparr>])"
  using fifo_order [where pre = "[\<lparr> lot_quantity = 10, lot_price = 1, lot_date = 1, lot_totalValue = 10 \<rparr>]"
      and rem = 12 and ds = "[]" and stock = "''A''" and sd = 3 and p = 5
      and post = "[\<lparr> lot_quantity = 7, lot_price = 3, lot_date = 3, lot_totalValue = 21 \<rparr>]"
      and cl = "[]"
      and b = "\<lparr> lot_quantity = 10, lot_price = 2, lot_date = 2, lot_totalValue = 20 \<rparr>"]
    fifo_order [where pre = "[\<lparr> lot_quantity = 10, lot_price = 1, lot_date = 1, lot_totalValue = 10 \<rparr>]"
      and rem = 10 and ds = "[]" and stock = "''A''" and sd = 3 and p = 5
      and post = "[\<lparr> lot_quantity = 10, lot_price = 2, lot_date = 2, lot_totalValue = 20 \<rparr>]"
      and cl = "[]"
      and b = "\<lparr> lot_quantity = 10, lot_price = 2, lot_date = 2, lot_totalValue = 20 \<rparr>"]
  by simp

subsection \<open>What every closed position satisfies\<close>

text \<open>
  Every closed position of the result was pushed by an iteration of the loop, so a
  property of all such positions holds of the whole result.
\<close>

lemma sell_loop_pred:
  "(\<forall>m l. P (match_position ds stock sd p m l)) \<Longrightarrow> (\<forall>c\<in>set cl. P c) \<Longrightarrow>
   (\<forall>c\<in>set (snd (sell_loop ds stock sd p rem q cl)). P c)"
proof (induction ds stock sd p rem q cl rule: sell_loop.induct)
  case (1 ds stock sd p rem cl)
  then show ?case by (simp add: sell_loop.simps(1))
next
  case (2 ds stock sd p rem b rest cl)
  show ?case
  proof (cases "0 < rem")
    case False
    then show ?thesis using "2.prems"(2) by (simp add: sell_loop_stop)
  next
    case True
    have ext: "\<forall>c\<in>set (cl @ [match_position ds stock sd p (min rem (lot_quantity b)) b]). P c"
      using "2.prems" by simp
    show ?thesis
      using "2.IH" [OF True refl refl refl refl "2.prems"(1) ext]
      by (simp add: sell_loop_step [OF True] split: if_splits)
  qed
qed


lemma process_transaction_pred:
  assumes "\<forall>stock sd p m l. P (match_position ds stock sd p m l)"
    and "\<forall>c\<in>set (snd st). P c"
  shows "\<forall>c\<in>set (snd (process_transaction ds st t)). P c"
proof (cases "transaction_type t")
  case Buy
  then show ?thesis using assms(2) by (simp add: process_transaction_Buy)
next
  case Sell
  have "\<forall>m l. P (match_position ds (stock_code t) (transaction_date t) (price_per_share t) m l)"
    using assms(1) by blast
  then have "\<forall>c\<in>set (snd (sell_loop ds (stock_code t) (transaction_date t) (price_per_share t)
       (quantity t) (queue_of (fst st) (stock_code t)) (snd st))). P c"
    using assms(2) by (rule sell_loop_pred)
  then show ?thesis using Sell by (simp add: process_transaction_Sell)
qed

lemma foldl_process_pred:
  assumes "\<forall>stock sd p m l. P (match_position ds stock sd p m l)"
  shows "(\<forall>c\<in>set (snd st). P c) \<Longrightarrow>
         (\<forall>c\<in>set (snd (foldl (process_transaction ds) st ts)). P c)"
proof (induction ts arbitrary: st)
  case Nil
  then show ?case by simp
next
  case (Cons t ts)
  have "\<forall>c\<in>set (snd (process_transaction ds st t)). P c"
    using assms Cons.prems by (rule process_transaction_pred)
  then have "\<forall>c\<in>set (snd (foldl (process_transaction ds) (process_transaction ds st t) ts)). P c"
    by (rule Cons.IH)
  then show ?case by simp
qed

lemma calculateClosedPositions_pred:
  assumes "\<forall>stock sd p m l. P (match_position ds stock sd p m l)"
  shows "\<forall>c\<in>set (calculateClosedPositions ts ds). P c"
proof -
  have "\<forall>c\<in>set (snd (foldl (process_transaction ds) (Map.empty, []) (sortedTransactions ts))). P c"
    using assms by (rule foldl_process_pred) simp
  then show ?thesis
    by (simp add: calculateClosedPositions_def run_transactions_def)
qed

subsection \<open>Dividends of a closed position\<close>

lemma foldl_amount:
  "foldl (\<lambda>sum d. sum + amount d) a xs = a + sum_list (map amount xs)"
  by (induction xs arbitrary: a) simp_all

lemma buyDate_match_position [simp]:
  "buyDate (match_position ds stock sd p m l) = lot_date l"
  by (simp add: match_position_def Let_def)

lemma sellDate_match_position [simp]:
  "sellDate (match_position ds stock sd p m l) = sd"
  by (simp add: match_position_def Let_def)

lemma match_position_dividends:
  "cp_dividends (match_position ds stock sd p m l) =
     sum_list (map amount (filter (in_window (match_position ds stock sd p m l)) ds))"
proof -
  have "filter (in_window (match_position ds stock sd p m l)) ds
      = filter (\<lambda>d. div_stock_code d = stock \<and> lot_date l \<le> dividend_date d
                         \<and> dividend_date d \<le> sd) ds"
    by (rule filter_cong) (simp_all add: in_window_def)
  moreover have "cp_dividends (match_position ds stock sd p m l)
      = positionDividends ds stock (lot_date l) sd"
    by (simp add: match_position_def Let_def)
  ultimately show ?thesis
    by (simp add: positionDividends_def foldl_amount)
qed

text \<open>
  C7. The dividends of every closed position are the sum of the amounts of the
  dividends of the same stock code dated from its buy date to its sell date, both
  included. A dividend of 100 at time 5 is counted for a position bought at 1 and sold at
  10, and is not counted for a position bought at 1 and sold at 4.
\<close>

theorem distribution_windowing:
  "(\<forall>c\<in>set (calculateClosedPositions ts ds).
      cp_dividends c = sum_list (map amount (filter (in_window c) ds)))
   \<and> map (\<lambda>c. (buyDate c, sellDate c, cp_dividends c))
       (calculateClosedPositions
          [recorded Buy ''A'' 10 1 1, recorded Sell ''A'' 10 2 10]
          [\<lparr> div_stock_code = ''A'', amount = 100, dividend_date = 5 \<rparr>])
     = [(1, 10, 100)]
   \<and> map (\<lambda>c. (buyDate c, sellDate c, cp_dividends c))
       (calculateClosedPositions
          [recorded Buy ''A'' 10 1 1, recorded Sell ''A'' 10 2 4]
          [\<lparr> div_stock_code = ''A'', amount = 100, dividend_date = 5 \<rparr>])
     = [(1, 4, 0)]"
proof -
  have general: "\<forall>c\<in>set (calculateClosedPositions ts ds).
      cp_dividends c = sum_list (map amount (filter (in_window c) ds))"
    by (rule calculateClosedPositions_pred) (simp add: match_position_dividends)
  have inside: "map (\<lambda>c. (buyDate c, sellDate c, cp_dividends c))
       (calculateClosedPositions
          [recorded Buy ''A'' 10 1 1, recorded Sell ''A'' 10 2 10]
          [\<lparr> div_stock_code = ''A'', amount = 100, dividend_date = 5 \<rparr>])
     = [(1, 10, 100)]"
    by (simp add: history_defs)
  have outside: "map (\<lambda>c. (buyDate c, sellDate c, cp_dividends c))
       (calculateClosedPositions
          [recorded Buy ''A'' 10 1 1, recorded Sell ''A'' 10 2 4]
          [\<lparr> div_stock_code = ''A'', amount = 100, dividend_date = 5 \<rparr>])
     = [(1, 4, 0)]"
    by (simp add: history_defs)
  show ?thesis
    using general inside outside by blast
qed

theorem distribution_windowing_witness:
  "match_position [\<lparr> div_stock_code = ''A'', amount = 100, dividend_date = 5 \<rparr>] ''A'' 10 2 10
      \<lparr> lot_quantity = 10, lot_price = 1, lot_date = 1, lot_totalValue = 10 \<rparr>
     \<in> set (calculateClosedPositions
          [recorded Buy ''A'' 10 1 1, recorded Sell ''A'' 10 2 10]
          [\<lparr> div_stock_code = ''A'', amount = 100, dividend_date = 5 \<rparr>])
   \<and> cp_dividends (match_position [\<lparr> div_stock_code = ''A'', amount = 100, dividend_date = 5 \<rparr>] ''A'' 10 2 10
      \<lparr> lot_quantity = 10, lot_price = 1, lot_date = 1, lot_totalValue = 10 \<rparr>) = 100"
  using distribution_windowing [of "[recorded Buy ''A'' 10 1 1, recorded Sell ''A'' 10 2 10]"
      "[\<lparr> div_stock_code = ''A'', amount = 100, dividend_date = 5 \<rparr>]"]
  by (simp add: history_defs)

text \<open>
  C10. Two lots bought at times 1 and 2 are both drained by one sell at time 4; a
  dividend of 100 dated 3 lies in the window of both closed positions and is counted in
  each, so the dividends of the closed positions add up to 200, more than the 100
  recorded for the instrument.
\<close>

theorem distribution_double_count:
  "map (\<lambda>c. (buyDate c, sellDate c, cp_quantity c, cp_dividends c))
     (calculateClosedPositions
        [recorded Buy ''A'' 10 1 1, recorded Buy ''A'' 10 2 2, recorded Sell ''A'' 20 3 4]
        [\<lparr> div_stock_code = ''A'', amount = 100, dividend_date = 3 \<rparr>])
   = [(1, 4, 10, 100), (2, 4, 10, 100)]
   \<and> sum_list (map amount [\<lparr> div_stock_code = ''A'', amount = 100, dividend_date = 3 \<rparr>])
     < sum_list (map cp_dividends
         (calculateClosedPositions
            [recorded Buy ''A'' 10 1 1, recorded Buy ''A'' 10 2 2, recorded Sell ''A'' 20 3 4]
            [\<lparr> div_stock_code = ''A'', amount = 100, dividend_date = 3 \<rparr>]))"
  by (simp add: history_defs)


subsection \<open>A sell of more than is open\<close>

lemma sell_loop_drains:
  "(\<forall>l\<in>set q. 0 < lot_quantity l) \<Longrightarrow> sum_list (map lot_quantity q) \<le> rem \<Longrightarrow>
   sell_loop ds stock sd p rem q cl
     = ([], cl @ map (\<lambda>l. match_position ds stock sd p (lot_quantity l) l) q)"
proof (induction q arbitrary: rem cl)
  case Nil
  then show ?case by (simp add: sell_loop.simps(1))
next
  case (Cons b rest)
  have nn: "0 \<le> sum_list (map lot_quantity rest)"
    using Cons.prems(1) by (intro sum_list_nonneg) auto
  have b: "0 < lot_quantity b" using Cons.prems(1) by simp
  have le: "lot_quantity b \<le> rem" using Cons.prems(2) nn by simp
  have pos: "0 < rem" using b le by simp
  have m: "min rem (lot_quantity b) = lot_quantity b" using le by simp
  have "sell_loop ds stock sd p rem (b # rest) cl
      = sell_loop ds stock sd p (rem - lot_quantity b) rest
          (cl @ [match_position ds stock sd p (lot_quantity b) b])"
    by (simp add: sell_loop_step [OF pos] m)
  also have "\<dots> = ([], (cl @ [match_position ds stock sd p (lot_quantity b) b])
                      @ map (\<lambda>l. match_position ds stock sd p (lot_quantity l) l) rest)"
    using Cons.prems by (intro Cons.IH) auto
  finally show ?case by simp
qed

text \<open>
  The table of transactions admits positive quantities only
  (\<^verbatim>\<open>CHECK (quantity > 0)\<close>). With such transactions every lot of every queue holds
  a positive quantity at every point: a lot that reaches 0 is removed.
\<close>

lemma sell_loop_positive:
  "(\<forall>l\<in>set q. 0 < lot_quantity l) \<Longrightarrow>
   (\<forall>l\<in>set (fst (sell_loop ds stock sd p rem q cl)). 0 < lot_quantity l)"
proof (induction q arbitrary: rem cl)
  case Nil
  show ?case by (simp add: sell_loop.simps(1))
next
  case (Cons b rest)
  show ?case
  proof (cases "0 < rem")
    case False
    then show ?thesis using Cons.prems by (simp add: sell_loop_stop)
  next
    case True
    show ?thesis
    proof (cases "lot_quantity b \<le> rem")
      case whole: True
      then have m: "min rem (lot_quantity b) = lot_quantity b" by simp
      have step: "sell_loop ds stock sd p rem (b # rest) cl
          = sell_loop ds stock sd p (rem - lot_quantity b) rest
              (cl @ [match_position ds stock sd p (lot_quantity b) b])"
        by (simp add: sell_loop_step [OF True] m)
      have "\<forall>l\<in>set rest. 0 < lot_quantity l"
        using Cons.prems by simp
      then show ?thesis
        unfolding step by (rule Cons.IH)
    next
      case part: False
      then have m: "min rem (lot_quantity b) = rem" by simp
      have nz: "lot_quantity b - rem \<noteq> 0" using part by simp
      have step: "sell_loop ds stock sd p rem (b # rest) cl
          = (b \<lparr> lot_quantity := lot_quantity b - rem \<rparr> # rest,
             cl @ [match_position ds stock sd p rem b])"
        using nz by (simp add: sell_loop_step [OF True] m sell_loop_stop)
      show ?thesis
        unfolding step using Cons.prems part by simp
    qed
  qed
qed

lemma process_transaction_positive:
  assumes "0 < quantity t"
    and "\<forall>l\<in>set (queue_of (fst st) s). 0 < lot_quantity l"
    and "\<forall>l\<in>set (queue_of (fst st) (stock_code t)). 0 < lot_quantity l"
  shows "\<forall>l\<in>set (queue_of (fst (process_transaction ds st t)) s). 0 < lot_quantity l"
proof (cases "transaction_type t")
  case Buy
  then show ?thesis
    using assms by (simp add: process_transaction_def Let_def)
next
  case Sell
  have "\<forall>l\<in>set (fst (sell_loop ds (stock_code t) (transaction_date t) (price_per_share t)
        (quantity t) (queue_of (fst st) (stock_code t)) (snd st))). 0 < lot_quantity l"
    using assms(3) by (rule sell_loop_positive)
  then show ?thesis
    using Sell assms(2) by (simp add: process_transaction_def Let_def)
qed

lemma run_transactions_positive:
  "(\<forall>t\<in>set ts. 0 < quantity t) \<Longrightarrow>
   (\<forall>l\<in>set (queue_of (fst (run_transactions ds ts)) s). 0 < lot_quantity l)"
proof (induction ts arbitrary: s rule: rev_induct)
  case Nil
  show ?case by (simp add: run_transactions_def queue_of_def)
next
  case (snoc t ts)
  have q: "0 < quantity t" using snoc.prems by simp
  have all: "\<And>s. \<forall>l\<in>set (queue_of (fst (run_transactions ds ts)) s). 0 < lot_quantity l"
    using snoc.IH snoc.prems by simp
  have "\<forall>l\<in>set (queue_of (fst (process_transaction ds (run_transactions ds ts) t)) s).
          0 < lot_quantity l"
    using q all [of s] all [of "stock_code t"] by (rule process_transaction_positive)
  then show ?case
    by (simp add: run_transactions_def)
qed

text \<open>
  C1, as the specification states it, fails: a buy of 5 followed by a sell of 6 raises
  no error, empties the queue and emits a closed position of 5.
\<close>

theorem over_disposal_counterexample:
  "final_queues [recorded Buy ''A'' 5 10 1] [] ''A''
     = [\<lparr> lot_quantity = 5, lot_price = 10, lot_date = 1, lot_totalValue = 50 \<rparr>]
   \<and> final_queues [recorded Buy ''A'' 5 10 1, recorded Sell ''A'' 6 12 2] [] ''A'' = []
   \<and> map cp_quantity
       (calculateClosedPositions [recorded Buy ''A'' 5 10 1, recorded Sell ''A'' 6 12 2] [])
     = [5]"
  by (simp add: history_defs)

text \<open>
  C1, as the code has it. A sell of more than the open quantity of its instrument
  (all lots of the queue holding a positive quantity) closes every open lot in full, in
  queue order, leaves the queue of the instrument empty and drops the rest of the sell:
  the loop ends when the queue is empty.
\<close>

theorem over_disposal_drains_queue:
  assumes "transaction_type t = Sell"
    and "\<forall>l\<in>set (queue_of (fst st) (stock_code t)). 0 < lot_quantity l"
    and "open_quantity (fst st) (stock_code t) < quantity t"
  shows "queue_of (fst (process_transaction ds st t)) (stock_code t) = []
    \<and> snd (process_transaction ds st t)
        = snd st @ map (\<lambda>l. match_position ds (stock_code t) (transaction_date t)
                              (price_per_share t) (lot_quantity l) l)
                     (queue_of (fst st) (stock_code t))"
proof -
  have le: "sum_list (map lot_quantity (queue_of (fst st) (stock_code t))) \<le> quantity t"
    using assms(3) by (simp add: open_quantity_def)
  have loop: "sell_loop ds (stock_code t) (transaction_date t) (price_per_share t) (quantity t)
         (queue_of (fst st) (stock_code t)) (snd st)
      = ([], snd st @ map (\<lambda>l. match_position ds (stock_code t) (transaction_date t)
                              (price_per_share t) (lot_quantity l) l)
                     (queue_of (fst st) (stock_code t)))"
    using assms(2) le by (rule sell_loop_drains)
  have "transaction_type t \<noteq> Buy"
    using assms(1) by simp
  then show ?thesis
    by (simp add: process_transaction_def Let_def loop)
qed

theorem over_disposal_drains_queue_witness:
  "transaction_type (recorded Sell ''A'' 6 12 2) = Sell
   \<and> open_quantity
       (fst ([''A'' \<mapsto> [\<lparr> lot_quantity = 5, lot_price = 10, lot_date = 1, lot_totalValue = 50 \<rparr>]], []))
       (stock_code (recorded Sell ''A'' 6 12 2)) = 5
   \<and> queue_of
       (fst (process_transaction []
          ([''A'' \<mapsto> [\<lparr> lot_quantity = 5, lot_price = 10, lot_date = 1, lot_totalValue = 50 \<rparr>]], [])
          (recorded Sell ''A'' 6 12 2))) ''A'' = []
   \<and> map cp_quantity
       (snd (process_transaction []
          ([''A'' \<mapsto> [\<lparr> lot_quantity = 5, lot_price = 10, lot_date = 1, lot_totalValue = 50 \<rparr>]], [])
          (recorded Sell ''A'' 6 12 2))) = [5]"
  using over_disposal_drains_queue [of "recorded Sell ''A'' 6 12 2"
      "([''A'' \<mapsto> [\<lparr> lot_quantity = 5, lot_price = 10, lot_date = 1, lot_totalValue = 50 \<rparr>]], [])"
      "[]"]
  by (simp add: recorded_def open_quantity_def queue_of_def)

subsection \<open>Records with a quantity or a price that is not positive\<close>

lemma sell_loop_filter_other:
  "s \<noteq> stock \<Longrightarrow>
   filter (\<lambda>c. cp_stock_code c = s) (snd (sell_loop ds stock sd p rem q cl))
     = filter (\<lambda>c. cp_stock_code c = s) cl"
proof (induction ds stock sd p rem q cl rule: sell_loop.induct)
  case (1 ds stock sd p rem cl)
  show ?case by (simp add: sell_loop.simps(1))
next
  case (2 ds stock sd p rem b rest cl)
  show ?case
  proof (cases "0 < rem")
    case False
    then show ?thesis by (simp add: sell_loop_stop)
  next
    case True
    show ?thesis
      using "2.IH" [OF True refl refl refl refl "2.prems"] "2.prems"
      by (simp add: sell_loop_step [OF True] split: if_splits)
  qed
qed

text \<open>
  C9, as the specification states it, fails: a buy of quantity 0 is not refused and
  does not stop the ledger of its instrument. Its lot is matched by the next sell (a
  closed position of quantity 0, whose return percent is 0 / 0), and the buy and the
  sell that follow it are matched as usual.
\<close>

theorem invalid_input_counterexample:
  "map (\<lambda>c. (buyDate c, cp_quantity c, returnPercent c))
     (calculateClosedPositions
        [recorded Buy ''A'' 0 10 1, recorded Buy ''A'' 10 1 2, recorded Sell ''A'' 10 2 3] [])
   = [(1, 0, NaN), (2, 10, Fin 100)]"
  by (simp add: history_defs)

text \<open>
  C9, as the code has it. \<^verbatim>\<open>calculateClosedPositions\<close> checks no record: a buy
  is pushed on the queue of its instrument with the quantity and the price it carries,
  whatever their sign, and closes nothing. A transaction of one instrument leaves the
  queue and the closed positions of every other instrument as they were.
\<close>

theorem transactions_not_validated:
  "(transaction_type t = Buy \<longrightarrow>
      queue_of (fst (process_transaction ds st t)) (stock_code t)
        = queue_of (fst st) (stock_code t)
            @ [\<lparr> lot_quantity = quantity t, lot_price = price_per_share t,
                 lot_date = transaction_date t, lot_totalValue = total_value t \<rparr>]
      \<and> snd (process_transaction ds st t) = snd st)
   \<and> (s \<noteq> stock_code t \<longrightarrow>
      queue_of (fst (process_transaction ds st t)) s = queue_of (fst st) s
      \<and> filter (\<lambda>c. cp_stock_code c = s) (snd (process_transaction ds st t))
          = filter (\<lambda>c. cp_stock_code c = s) (snd st))"
proof -
  have buy: "transaction_type t = Buy \<Longrightarrow>
      queue_of (fst (process_transaction ds st t)) (stock_code t)
        = queue_of (fst st) (stock_code t)
            @ [\<lparr> lot_quantity = quantity t, lot_price = price_per_share t,
                 lot_date = transaction_date t, lot_totalValue = total_value t \<rparr>]
      \<and> snd (process_transaction ds st t) = snd st"
    by (simp add: process_transaction_def Let_def)
  have other_queue: "s \<noteq> stock_code t \<Longrightarrow>
      queue_of (fst (process_transaction ds st t)) s = queue_of (fst st) s"
    by (simp add: process_transaction_def Let_def)
  have other_closed: "s \<noteq> stock_code t \<Longrightarrow>
      filter (\<lambda>c. cp_stock_code c = s) (snd (process_transaction ds st t))
          = filter (\<lambda>c. cp_stock_code c = s) (snd st)"
    by (cases "transaction_type t")
       (simp_all add: process_transaction_Buy process_transaction_Sell sell_loop_filter_other)
  show ?thesis
    using buy other_queue other_closed by blast
qed

theorem transactions_not_validated_witness:
  "transaction_type (recorded Buy ''A'' (- 5) (- 1) 1) = Buy
   \<and> ''B'' \<noteq> stock_code (recorded Buy ''A'' (- 5) (- 1) 1)
   \<and> queue_of (fst (process_transaction [] (Map.empty, []) (recorded Buy ''A'' (- 5) (- 1) 1))) ''A''
       = [\<lparr> lot_quantity = - 5, lot_price = - 1, lot_date = 1, lot_totalValue = 5 \<rparr>]
   \<and> queue_of (fst (process_transaction [] (Map.empty, []) (recorded Buy ''A'' (- 5) (- 1) 1))) ''B''
       = []"
  using transactions_not_validated [of "recorded Buy ''A'' (- 5) (- 1) 1" "[]" "(Map.empty, [])" "''B''"]
  by (simp add: recorded_def queue_of_def)

subsection \<open>Return per month\<close>

lemma ceil_days_nonneg: "0 \<le> ms \<Longrightarrow> 0 \<le> ceil_days ms"
  by (simp add: ceil_days_def ms_per_day_def)

text \<open>
  C6, as the specification states it, fails for an open position whose first purchase
  is dated after now: 45 days ahead, with a return of -9 percent, the elapsed days now
  minus first purchase are negative and the claim gives 0, while
  \<^verbatim>\<open>calculateMonthlyReturn\<close> takes the absolute value of the difference and gives -6.
\<close>

theorem monthly_return_counterexample:
  "calculateMonthlyReturn 0 (Some (45 * ms_per_day)) (Fin (- 9)) = Fin (- 6)
   \<and> spec_monthly_return 0 (45 * ms_per_day) (Fin (- 9)) = Fin 0"
  by (simp add: calculateMonthlyReturn_def spec_monthly_return_def ceil_days_div ms_per_day_def
        Let_def)

text \<open>
  C6, as the code has it. The monthly return of every closed position is its return
  percent divided by days / 30 when that number of months is positive, and 0 otherwise.
  \<^verbatim>\<open>calculateMonthlyReturn\<close> divides the return by days / 30, where the days are the
  distance between now and the first purchase (the absolute value of the difference,
  rounded up to days), when that number of months is positive, and gives 0 otherwise,
  also when there is no first purchase. A return of 30 percent over 60 days gives 15
  percent per month, for an open position and for a closed one.
\<close>

theorem monthly_return:
  "(\<forall>c\<in>set (calculateClosedPositions ts ds).
      monthlyReturn c =
        (if 0 < (of_int (days c) :: rat) / 30
         then js_div (returnPercent c) (Fin (of_int (days c) / 30)) else Fin 0))
   \<and> calculateMonthlyReturn now (Some d) r =
        (if 0 < (of_int (ceil_days \<bar>now - d\<bar>) :: rat) / 30
         then js_div r (Fin (of_int (ceil_days \<bar>now - d\<bar>) / 30)) else Fin 0)
   \<and> calculateMonthlyReturn now None r = Fin 0
   \<and> calculateMonthlyReturn (60 * ms_per_day) (Some 0) (Fin 30) = Fin 15
   \<and> map (\<lambda>c. (days c, returnPercent c, monthlyReturn c))
       (calculateClosedPositions
          [recorded Buy ''A'' 10 10 0, recorded Sell ''A'' 10 13 (60 * ms_per_day)] [])
     = [(60, Fin 30, Fin 15)]"
proof -
  have closed: "\<forall>c\<in>set (calculateClosedPositions ts ds).
      monthlyReturn c =
        (if 0 < (of_int (days c) :: rat) / 30
         then js_div (returnPercent c) (Fin (of_int (days c) / 30)) else Fin 0)"
    by (rule calculateClosedPositions_pred) (simp add: match_position_def Let_def)
  have "0 \<le> ceil_days \<bar>now - d\<bar>"
    by (rule ceil_days_nonneg) simp
  then have "open": "calculateMonthlyReturn now (Some d) r =
        (if 0 < (of_int (ceil_days \<bar>now - d\<bar>) :: rat) / 30
         then js_div r (Fin (of_int (ceil_days \<bar>now - d\<bar>) / 30)) else Fin 0)"
    by (simp add: calculateMonthlyReturn_def Let_def)
  have none: "calculateMonthlyReturn now None r = Fin 0"
    by (simp add: calculateMonthlyReturn_def)
  have ex1: "calculateMonthlyReturn (60 * ms_per_day) (Some 0) (Fin 30) = Fin 15"
    by (simp add: calculateMonthlyReturn_def ceil_days_div ms_per_day_def Let_def)
  have ex2: "map (\<lambda>c. (days c, returnPercent c, monthlyReturn c))
       (calculateClosedPositions
          [recorded Buy ''A'' 10 10 0, recorded Sell ''A'' 10 13 (60 * ms_per_day)] [])
     = [(60, Fin 30, Fin 15)]"
    by (simp add: history_defs)
  show ?thesis
    using closed "open" none ex1 ex2 by blast
qed

theorem monthly_return_witness:
  "match_position [] ''A'' (60 * ms_per_day) 13 10
      \<lparr> lot_quantity = 10, lot_price = 10, lot_date = 0, lot_totalValue = 100 \<rparr>
     \<in> set (calculateClosedPositions
          [recorded Buy ''A'' 10 10 0, recorded Sell ''A'' 10 13 (60 * ms_per_day)] [])
   \<and> monthlyReturn (match_position [] ''A'' (60 * ms_per_day) 13 10
      \<lparr> lot_quantity = 10, lot_price = 10, lot_date = 0, lot_totalValue = 100 \<rparr>) = Fin 15"
  using monthly_return [of "[recorded Buy ''A'' 10 10 0, recorded Sell ''A'' 10 13 (60 * ms_per_day)]" "[]"]
  by (simp add: history_defs)

section \<open>Properties of the portfolio summary\<close>

lemmas portfolio_defs =
  portfolio_of_def portfolio_transaction_def portfolio_dividend_def holding_of_def
  new_holding_def activeStocks_def recorded_def Let_def

subsection \<open>The average price of a holding\<close>

lemma holding_of_update [simp]:
  "holding_of (AList.update k v pf) c = (if c = k then v else holding_of pf c)"
  by (simp add: holding_of_def update_conv')

lemma holding_of_init [simp]:
  "holding_of (case map_of pf k of None \<Rightarrow> pf @ [(k, new_holding)] | Some h \<Rightarrow> pf) c
     = holding_of pf c"
  by (auto simp: holding_of_def map_add_def split: option.splits)












subsection \<open>Return percent\<close>












subsection \<open>Totals of the portfolio\<close>

lemma allPricesLoaded_filter:
  "allPricesLoaded sp pf \<Longrightarrow>
   filter (\<lambda>(code, data). \<not> isLoading sp code) (activeStocks pf) = activeStocks pf"
  unfolding allPricesLoaded_def list_all_iff
  by (intro filter_True) (auto simp: isLoading_def split: option.splits)

lemma foldl_current_value:
  "foldl (\<lambda>sum (code, data).
              (case sp code of
                 None \<Rightarrow> sum
               | Some stockPrice \<Rightarrow>
                   if loading stockPrice then sum
                   else sum + calculateCurrentValue (h_quantity data) (currentPrice stockPrice)
                          + totalDividends data)) a xs
   = a + sum_list (map (\<lambda>(code, data). of_int (h_quantity data) * currentPrice_of sp code
                                            + totalDividends data)
                    (filter (\<lambda>(code, data). \<not> isLoading sp code) xs))"
  by (induction xs arbitrary: a)
     (auto simp: isLoading_def currentPrice_of_def calculateCurrentValue_def split: option.splits)

lemma foldl_invested:
  "foldl (\<lambda>sum (code, data). sum + totalInvested data) a xs
   = a + sum_list (map (\<lambda>(code, data). totalInvested data) xs)"
  by (induction xs arbitrary: a) auto

text \<open>
  C8, as the specification states it, fails for the invested total: with one active
  instrument whose price is pending, the invested total is the 10 invested in it, not 0.
\<close>

theorem portfolio_totals_counterexample:
  "isLoading Map.empty ''A''
   \<and> map fst (activeStocks (portfolio_of [recorded Buy ''A'' 10 1 1] [])) = [''A'']
   \<and> totalPortfolioInvested (portfolio_of [recorded Buy ''A'' 10 1 1] []) = 10
   \<and> totalCurrentValue Map.empty (portfolio_of [recorded Buy ''A'' 10 1 1] []) = 0"
  by (simp add: isLoading_def totalPortfolioInvested_def totalCurrentValue_def portfolio_defs)

text \<open>
  C8, as the code has it. The total current value is summed over the active
  instruments whose price is not pending (quantity times current price, plus the
  dividends received); the invested total is summed over every active instrument,
  whatever the state of its price. When all prices are loaded, the only case in which
  the current value and the return are displayed, both totals range over the same
  instruments.
\<close>

theorem portfolio_totals:
  "totalCurrentValue sp pf
     = sum_list (map (\<lambda>(code, data). of_int (h_quantity data) * currentPrice_of sp code
                                          + totalDividends data)
                  (filter (\<lambda>(code, data). \<not> isLoading sp code) (activeStocks pf)))
   \<and> totalPortfolioInvested pf
     = sum_list (map (\<lambda>(code, data). totalInvested data) (activeStocks pf))
   \<and> (allPricesLoaded sp pf \<longrightarrow>
        totalCurrentValue sp pf
          = sum_list (map (\<lambda>(code, data). of_int (h_quantity data) * currentPrice_of sp code
                                               + totalDividends data)
                       (activeStocks pf)))"
  by (simp add: totalCurrentValue_def totalPortfolioInvested_def foldl_current_value
        foldl_invested allPricesLoaded_filter)

theorem portfolio_totals_witness:
  "allPricesLoaded [''A'' \<mapsto> \<lparr> currentPrice = 2, loading = False \<rparr>]
     (portfolio_of [recorded Buy ''A'' 10 1 1] [])
   \<and> totalCurrentValue [''A'' \<mapsto> \<lparr> currentPrice = 2, loading = False \<rparr>]
       (portfolio_of [recorded Buy ''A'' 10 1 1] []) = 20
   \<and> totalPortfolioInvested (portfolio_of [recorded Buy ''A'' 10 1 1] []) = 10"
  using portfolio_totals [of "[''A'' \<mapsto> \<lparr> currentPrice = 2, loading = False \<rparr>]"
      "portfolio_of [recorded Buy ''A'' 10 1 1] []"]
  by (simp add: allPricesLoaded_def currentPrice_of_def portfolio_defs)

end
